theory Spec2Isabelle
  imports Complex_Main
begin

section \<open>Data model (src/models/entities.py)\<close>

text \<open>
  The dataclass \<open>Employee\<close>. The field \<open>id\<close> is renamed \<open>employee_id\<close> (\<open>id\<close> is the
  identity function of HOL). Period indices are Python integers, hence \<open>int\<close>. Every
  employee object is taken to be stored once in the simulator's list, so that a mutation
  through \<open>self.employees[e]\<close> is an update of position \<open>e\<close> of that list.
\<close>

record employee =
  employee_id :: int
  skills :: "string list"
  max_hours :: real
  current_task :: "string option"
  hours_worked :: real
  breaks_taken :: "int list"
  schedule :: "int list"

text \<open>
  The state of \<open>WorkforceSimulator\<close> that the scheduling methods read and write: the list
  \<open>self.employees\<close>. (\<open>env\<close>, \<open>tasks\<close>, \<open>resources\<close> and the metrics are not touched by them.)
\<close>

record simulator =
  employees :: "employee list"

text \<open>
  Exceptions as values: \<open>IndexError\<close> for a list read out of range, \<open>BackendError\<close> for
  any exception raised while the optimisation model is built, solved or read.
\<close>

datatype exception = IndexError | BackendError string

definition py_getitem :: "'a list \<Rightarrow> nat \<Rightarrow> exception + 'a" where
  "py_getitem xs i = (if i < length xs then Inr (xs ! i) else Inl IndexError)"

definition py_range :: "int \<Rightarrow> int \<Rightarrow> int list" where
  "py_range a b = [a..b - 1]"

section \<open>Shift segmentation (src/utils/helpers.py, WorkforceSimulator._get_shifts)\<close>

text \<open>
  The loop of \<open>get_shifts\<close> with its two variables \<open>shifts\<close> and \<open>current_shift\<close>; the last
  equation is the code after the loop. \<open>current_shift[-1]\<close> is \<open>last current_shift\<close>: the
  list is \<open>[schedule[0]]\<close> at the start and only grows or is reset to \<open>[hour]\<close>.
\<close>

fun get_shifts_loop :: "int list list \<Rightarrow> int list \<Rightarrow> int list \<Rightarrow> int list list" where
  "get_shifts_loop shifts current_shift [] =
     (if current_shift \<noteq> [] then shifts @ [current_shift] else shifts)"
| "get_shifts_loop shifts current_shift (hour # rest) =
     (if hour = last current_shift + 1
      then get_shifts_loop shifts (current_shift @ [hour]) rest
      else get_shifts_loop (shifts @ [current_shift]) [hour] rest)"

fun get_shifts :: "int list \<Rightarrow> int list list" where
  "get_shifts [] = []"
| "get_shifts (first # rest) = get_shifts_loop [] [first] rest"

text \<open>The method \<open>WorkforceSimulator._get_shifts\<close>, a second copy of the same code.\<close>

fun WS_get_shifts_loop :: "int list list \<Rightarrow> int list \<Rightarrow> int list \<Rightarrow> int list list" where
  "WS_get_shifts_loop shifts current_shift [] =
     (if current_shift \<noteq> [] then shifts @ [current_shift] else shifts)"
| "WS_get_shifts_loop shifts current_shift (hour # rest) =
     (if hour = last current_shift + 1
      then WS_get_shifts_loop shifts (current_shift @ [hour]) rest
      else WS_get_shifts_loop (shifts @ [current_shift]) [hour] rest)"

fun WS_get_shifts :: "int list \<Rightarrow> int list list" where
  "WS_get_shifts [] = []"
| "WS_get_shifts (first # rest) = WS_get_shifts_loop [] [first] rest"

subsection \<open>Properties of runs\<close>

text \<open>A run is contiguous when each element is its predecessor plus one.\<close>

fun contiguous :: "int list \<Rightarrow> bool" where
  "contiguous [] = True"
| "contiguous [x] = True"
| "contiguous (x # y # ys) = (y = x + 1 \<and> contiguous (y # ys))"

text \<open>No two adjacent runs of the list merge into one contiguous run.\<close>

fun maximal_runs :: "int list list \<Rightarrow> bool" where
  "maximal_runs [] = True"
| "maximal_runs [r] = True"
| "maximal_runs (r # s # rs) = (\<not> contiguous (r @ s) \<and> maximal_runs (s # rs))"

section \<open>Break assignment (WorkforceSimulator.add_breaks)\<close>

text \<open>
  The constructor call \<open>Employee(id=i, skills=skills)\<close> with the defaults of the dataclass.
\<close>

definition Employee :: "int \<Rightarrow> string list \<Rightarrow> employee" where
  "Employee i sk =
     \<lparr>employee_id = i, skills = sk, max_hours = 40, current_task = None,
      hours_worked = 0, breaks_taken = [], schedule = []\<rparr>"

text \<open>
  The inner loop \<open>for shift in shifts\<close>, on the list \<open>employee.breaks_taken\<close>. The read
  \<open>shift[len(shift) // 2]\<close> is a checked list read; an exception leaves the breaks
  appended so far and ends the loop.
\<close>

fun add_breaks_shifts :: "int list \<Rightarrow> int list list \<Rightarrow> int list \<times> exception option" where
  "add_breaks_shifts breaks [] = (breaks, None)"
| "add_breaks_shifts breaks (shift # rest) =
     (if length shift \<ge> 6
      then (case py_getitem shift (length shift div 2) of
              Inl ex \<Rightarrow> (breaks, Some ex)
            | Inr mid_point \<Rightarrow> add_breaks_shifts (breaks @ [mid_point]) rest)
      else add_breaks_shifts breaks rest)"

text \<open>
  The outer loop \<open>for employee in self.employees\<close>: the shifts are computed, the breaks are
  reset to \<open>[]\<close> and the inner loop runs. An exception ends the loop with the employees
  after the current one untouched.
\<close>

fun add_breaks_employees :: "employee list \<Rightarrow> employee list \<times> exception option" where
  "add_breaks_employees [] = ([], None)"
| "add_breaks_employees (employee # rest) =
     (let shifts = WS_get_shifts (schedule employee) in
      case add_breaks_shifts [] shifts of
        (breaks, Some ex) \<Rightarrow> (employee\<lparr>breaks_taken := breaks\<rparr> # rest, Some ex)
      | (breaks, None) \<Rightarrow>
          (case add_breaks_employees rest of
             (rest', ex) \<Rightarrow> (employee\<lparr>breaks_taken := breaks\<rparr> # rest', ex)))"

text \<open>\<open>add_breaks\<close>: the \<open>except\<close> branch only logs, so the method returns in both cases.\<close>

definition add_breaks :: "simulator \<Rightarrow> simulator" where
  "add_breaks sim =
     (case add_breaks_employees (employees sim) of
        (emps, ex) \<Rightarrow> sim\<lparr>employees := emps\<rparr>)"

text \<open>
  The rule of the specification for one run (section 4.5): a run of length at least 6
  gives the one break \<open>run[len // 2]\<close>, a shorter run gives none.
\<close>

definition break_of_run :: "int list \<Rightarrow> int list" where
  "break_of_run run = (if 6 \<le> length run then [run ! (length run div 2)] else [])"

section \<open>Fallback schedule (WorkforceSimulator._generate_fallback_schedule)\<close>

text \<open>The local list \<open>shifts\<close> of the method.\<close>

definition fallback_shifts :: "(int \<times> int) list" where
  "fallback_shifts = [(0, 8), (8, 16), (16, 24)]"

text \<open>The loop \<open>for hour in range(shift_start, shift_end)\<close>, appending to the schedule.\<close>

fun fallback_hours :: "int list \<Rightarrow> int \<Rightarrow> int list \<Rightarrow> int list" where
  "fallback_hours sched day [] = sched"
| "fallback_hours sched day (hour # hours) =
     fallback_hours (sched @ [day * 24 + hour]) day hours"

text \<open>The loop \<open>for day in range(horizon_days)\<close>.\<close>

fun fallback_days :: "int list \<Rightarrow> int \<Rightarrow> int \<Rightarrow> int list \<Rightarrow> int list" where
  "fallback_days sched shift_start shift_end [] = sched"
| "fallback_days sched shift_start shift_end (day # days) =
     (if day mod 2 = 0
      then fallback_days (fallback_hours sched day (py_range shift_start shift_end))
             shift_start shift_end days
      else fallback_days sched shift_start shift_end days)"

text \<open>
  The loop \<open>for e in range(len(self.employees))\<close>. The reads \<open>shifts[shift_index]\<close> and
  \<open>self.employees[e]\<close> are checked list reads; an exception ends the loop and leaves the
  employees updated so far.
\<close>

fun fallback_employees ::
  "int \<Rightarrow> employee list \<Rightarrow> nat list \<Rightarrow> employee list \<times> exception option" where
  "fallback_employees horizon_days emps [] = (emps, None)"
| "fallback_employees horizon_days emps (e # es) =
     (let shift_index = e mod length fallback_shifts in
      case py_getitem fallback_shifts shift_index of
        Inl ex \<Rightarrow> (emps, Some ex)
      | Inr (shift_start, shift_end) \<Rightarrow>
          (let sched = fallback_days [] shift_start shift_end (py_range 0 horizon_days) in
           case py_getitem emps e of
             Inl ex \<Rightarrow> (emps, Some ex)
           | Inr emp \<Rightarrow>
               fallback_employees horizon_days (emps[e := emp\<lparr>schedule := sched\<rparr>]) es))"

definition generate_fallback_schedule :: "int \<Rightarrow> simulator \<Rightarrow> simulator \<times> exception option" where
  "generate_fallback_schedule horizon_days sim =
     (case fallback_employees horizon_days (employees sim) [0..<length (employees sim)] of
        (emps, ex) \<Rightarrow> (sim\<lparr>employees := emps\<rparr>, ex))"

text \<open>
  The fallback schedule in the words of the specification (section 4.3): three templates
  \<open>[0,8)\<close>, \<open>[8,16)\<close>, \<open>[16,24)\<close>; employee \<open>e\<close> has template \<open>e mod 3\<close>; for each day \<open>d\<close> of
  \<open>[0, horizonDays)\<close> with \<open>d mod 2 = 0\<close> every hour of the template on that day is
  appended. A function of the employee index and the horizon alone.
\<close>

definition shift_template :: "nat \<Rightarrow> int \<times> int" where
  "shift_template k = (if k = 0 then (0, 8) else if k = 1 then (8, 16) else (16, 24))"

definition template_day :: "int \<times> int \<Rightarrow> int \<Rightarrow> int list" where
  "template_day t d = (if d mod 2 = 0 then map (\<lambda>hour. d * 24 + hour) [fst t..snd t - 1] else [])"

definition fallback_schedule :: "nat \<Rightarrow> int \<Rightarrow> int list" where
  "fallback_schedule e horizon_days =
     concat (map (template_day (shift_template (e mod 3))) [0..horizon_days - 1])"

text \<open>
  Writing the schedules \<open>F i\<close> into the employees at the positions of \<open>S\<close>, all other fields
  and employees as they are.
\<close>

definition set_schedules :: "(nat \<Rightarrow> int list) \<Rightarrow> nat set \<Rightarrow> employee list \<Rightarrow> employee list" where
  "set_schedules F S emps =
     map (\<lambda>i. if i \<in> S then (emps ! i)\<lparr>schedule := F i\<rparr> else emps ! i) [0..<length emps]"


section \<open>Schedule generation (WorkforceSimulator.generate_schedule)\<close>

text \<open>
  The optimisation backend (pyomo and the CBC solver) is an external collaborator and a
  parameter of the model. \<open>solve b n h\<close> stands for lines 33 to 70: building the model for
  \<open>n\<close> employees and the horizon \<open>h\<close> and solving it, which raises or returns the solver's
  results. \<open>working_value b e p\<close> stands for \<open>pyo.value(model.working[e,p])\<close> after the
  solve, which raises or returns a number. Only subclasses of \<open>Exception\<close> are modelled.
\<close>

datatype SolverStatus =
  SolverStatus_ok | SolverStatus_warning | SolverStatus_error | SolverStatus_aborted
  | SolverStatus_unknown

datatype TerminationCondition =
  TerminationCondition_optimal | TerminationCondition_infeasible
  | TerminationCondition_other string

record solver_results =
  status :: SolverStatus
  termination_condition :: TerminationCondition

record backend =
  solve :: "nat \<Rightarrow> int \<Rightarrow> exception + solver_results"
  working_value :: "nat \<Rightarrow> int \<Rightarrow> exception + real"

text \<open>
  The inner loop \<open>for p in model.PERIODS\<close> of the extraction, on the local list
  \<open>schedule\<close>; \<open>val p\<close> is the value of the variable of the current employee at \<open>p\<close>.
\<close>

fun extract_periods ::
  "(int \<Rightarrow> exception + real) \<Rightarrow> int list \<Rightarrow> int list \<Rightarrow> exception + int list" where
  "extract_periods val sched [] = Inr sched"
| "extract_periods val sched (p # ps) =
     (case val p of
        Inl ex \<Rightarrow> Inl ex
      | Inr v \<Rightarrow>
          if v > 0.5 then extract_periods val (sched @ [p]) ps
          else extract_periods val sched ps)"

text \<open>
  The outer loop \<open>for e in model.EMPLOYEES\<close>. An exception ends the loop; the employees
  before \<open>e\<close> keep the schedules already assigned to them.
\<close>

fun extract_employees ::
  "backend \<Rightarrow> int list \<Rightarrow> employee list \<Rightarrow> nat list \<Rightarrow> employee list \<times> exception option" where
  "extract_employees b periods emps [] = (emps, None)"
| "extract_employees b periods emps (e # es) =
     (case extract_periods (working_value b e) [] periods of
        Inl ex \<Rightarrow> (emps, Some ex)
      | Inr sched \<Rightarrow>
          (case py_getitem emps e of
             Inl ex \<Rightarrow> (emps, Some ex)
           | Inr emp \<Rightarrow> extract_employees b periods (emps[e := emp\<lparr>schedule := sched\<rparr>]) es))"

text \<open>
  The body of the \<open>try\<close> block: the state it leaves and the exception it raised, if any.
  \<open>PERIODS\<close> is \<open>range(24 * horizon_days)\<close>, \<open>EMPLOYEES\<close> is \<open>range(len(self.employees))\<close>.
\<close>

definition generate_schedule_try ::
  "backend \<Rightarrow> int \<Rightarrow> simulator \<Rightarrow> simulator \<times> exception option" where
  "generate_schedule_try b horizon_days sim =
     (case solve b (length (employees sim)) horizon_days of
        Inl ex \<Rightarrow> (sim, Some ex)
      | Inr results \<Rightarrow>
          if status results = SolverStatus_ok
             \<and> termination_condition results = TerminationCondition_optimal
          then (case extract_employees b (py_range 0 (24 * horizon_days)) (employees sim)
                       [0..<length (employees sim)] of
                  (emps, ex) \<Rightarrow> (sim\<lparr>employees := emps\<rparr>, ex))
          else generate_fallback_schedule horizon_days sim)"

text \<open>
  \<open>generate_schedule\<close>: the \<open>except Exception\<close> branch runs the fallback on the state the
  \<open>try\<close> block left. The result is \<open>Inl\<close> when an exception leaves the method, which can
  only come from the fallback run by the handler.
\<close>

definition generate_schedule :: "backend \<Rightarrow> int \<Rightarrow> simulator \<Rightarrow> exception + simulator" where
  "generate_schedule b horizon_days sim =
     (case generate_schedule_try b horizon_days sim of
        (sim', None) \<Rightarrow> Inr sim'
      | (sim', Some ex) \<Rightarrow>
          (case generate_fallback_schedule horizon_days sim' of
             (sim'', None) \<Rightarrow> Inr sim''
           | (sim'', Some ex') \<Rightarrow> Inl ex'))"

text \<open>
  What the backend did, for \<open>n\<close> employees and horizon \<open>h\<close>: it reported an optimal
  solution; every variable has a readable value; and the schedule of employee \<open>e\<close> in the
  backend's assignment, the periods in order whose variable is above 0.5.
\<close>

definition solver_optimal :: "backend \<Rightarrow> nat \<Rightarrow> int \<Rightarrow> bool" where
  "solver_optimal b n h =
     (case solve b n h of
        Inl ex \<Rightarrow> False
      | Inr results \<Rightarrow> status results = SolverStatus_ok
          \<and> termination_condition results = TerminationCondition_optimal)"

definition readable :: "exception + real \<Rightarrow> bool" where
  "readable r = (case r of Inl ex \<Rightarrow> False | Inr v \<Rightarrow> True)"

definition values_readable :: "backend \<Rightarrow> nat \<Rightarrow> int \<Rightarrow> bool" where
  "values_readable b n h =
     list_all (\<lambda>e. list_all (\<lambda>p. readable (working_value b e p)) (py_range 0 (24 * h))) [0..<n]"

definition assigned :: "exception + real \<Rightarrow> bool" where
  "assigned r = (case r of Inl ex \<Rightarrow> False | Inr v \<Rightarrow> v > 0.5)"

definition optimal_schedule :: "backend \<Rightarrow> nat \<Rightarrow> int \<Rightarrow> int list" where
  "optimal_schedule b e h = filter (\<lambda>p. assigned (working_value b e p)) (py_range 0 (24 * h))"

definition backend_path :: "backend \<Rightarrow> nat \<Rightarrow> int \<Rightarrow> bool" where
  "backend_path b n h = (solver_optimal b n h \<and> values_readable b n h)"





section \<open>Scenarios\<close>

text \<open>The employees that \<open>main\<close> creates from \<open>SKILLS_MATRIX\<close> (src/config/settings.py).\<close>

definition SKILLS_MATRIX :: "string list list" where
  "SKILLS_MATRIX =
     [[''operator'', ''maintenance''], [''operator''], [''maintenance'', ''quality''],
      [''operator'', ''quality'']]"

definition main_simulator :: simulator where
  "main_simulator = \<lparr>employees = map (\<lambda>(i, sk). Employee (int i) sk) (enumerate 0 SKILLS_MATRIX)\<rparr>"

text \<open>A backend that is not available: building or solving the model raises.\<close>

definition backend_unavailable :: backend where
  "backend_unavailable =
     \<lparr>solve = (\<lambda>n h. Inl (BackendError ''no solver'')),
      working_value = (\<lambda>e p. Inl (BackendError ''no value''))\<rparr>"

text \<open>
  A backend that reports as optimal the assignment in which every employee works the
  first hour of every day.
\<close>

definition backend_first_hour :: backend where
  "backend_first_hour =
     \<lparr>solve = (\<lambda>n h. Inr \<lparr>status = SolverStatus_ok,
                          termination_condition = TerminationCondition_optimal\<rparr>),
      working_value = (\<lambda>e p. Inr (if p mod 24 = 0 then 1 else 0))\<rparr>"

text \<open>
  The state after \<open>simulator.generate_schedule()\<close> in \<open>main\<close> (the default horizon of 7
  days) when the backend is not available.
\<close>

definition scenario_scheduled :: simulator where
  "scenario_scheduled =
     (case generate_schedule backend_unavailable 7 main_simulator of
        Inl ex \<Rightarrow> main_simulator
      | Inr sim' \<Rightarrow> sim')"


section \<open>Segmentation: proofs\<close>

lemma WS_get_shifts_loop_eq: "WS_get_shifts_loop shifts cur xs = get_shifts_loop shifts cur xs"
  by (induction xs arbitrary: shifts cur) simp_all

lemma WS_get_shifts_eq: "WS_get_shifts xs = get_shifts xs"
  by (cases xs) (simp_all add: WS_get_shifts_loop_eq)

lemma contiguous_snoc:
  "cur \<noteq> [] \<Longrightarrow> contiguous (cur @ [h]) = (contiguous cur \<and> h = last cur + 1)"
  by (induction cur rule: contiguous.induct) auto

lemma contiguous_append:
  "r \<noteq> [] \<Longrightarrow> s \<noteq> [] \<Longrightarrow>
   contiguous (r @ s) = (contiguous r \<and> contiguous s \<and> hd s = last r + 1)"
proof (induction r rule: contiguous.induct)
  case 1
  then show ?case by simp
next
  case (2 x)
  then show ?case by (cases s) auto
next
  case (3 x y ys)
  then show ?case by auto
qed

lemma contiguous_prefix: "contiguous (us @ vs) \<Longrightarrow> contiguous us"
  by (induction us rule: contiguous.induct) simp_all

lemma maximal_runs_split:
  "maximal_runs (rs @ r # ss) = (maximal_runs (rs @ [r]) \<and> maximal_runs (r # ss))"
proof (induction rs)
  case Nil
  then show ?case by simp
next
  case (Cons a rs)
  then show ?case by (cases rs) auto
qed

lemma maximal_runs_snoc:
  "maximal_runs (rs @ [r, s]) = (maximal_runs (rs @ [r]) \<and> \<not> contiguous (r @ s))"
  using maximal_runs_split [of rs r "[s]"] by simp

lemma maximal_runs_grow:
  assumes "maximal_runs (shifts @ [cur])"
  shows "maximal_runs (shifts @ [cur @ [h]])"
proof (cases shifts rule: rev_cases)
  case Nil
  then show ?thesis by simp
next
  case (snoc ss s)
  from assms snoc have "maximal_runs (ss @ [s])" and nc: "\<not> contiguous (s @ cur)"
    by (simp_all add: maximal_runs_snoc)
  moreover have "\<not> contiguous (s @ cur @ [h])"
    using nc contiguous_prefix [of "s @ cur" "[h]"] by auto
  ultimately show ?thesis
    using snoc by (simp add: maximal_runs_snoc)
qed

lemma get_shifts_loop_concat:
  "concat (get_shifts_loop shifts cur xs) = concat shifts @ cur @ xs"
  by (induction xs arbitrary: shifts cur) simp_all

lemma get_shifts_loop_contiguous:
  "list_all contiguous shifts \<Longrightarrow> contiguous cur \<Longrightarrow> cur \<noteq> [] \<Longrightarrow>
   list_all contiguous (get_shifts_loop shifts cur xs)"
  by (induction xs arbitrary: shifts cur) (simp_all add: contiguous_snoc)

lemma get_shifts_loop_nonempty:
  "list_all (\<lambda>r. r \<noteq> []) shifts \<Longrightarrow> cur \<noteq> [] \<Longrightarrow>
   list_all (\<lambda>r. r \<noteq> []) (get_shifts_loop shifts cur xs)"
  by (induction xs arbitrary: shifts cur) simp_all

lemma get_shifts_loop_maximal:
  "maximal_runs (shifts @ [cur]) \<Longrightarrow> cur \<noteq> [] \<Longrightarrow>
   maximal_runs (get_shifts_loop shifts cur xs)"
proof (induction xs arbitrary: shifts cur)
  case Nil
  then show ?case by simp
next
  case (Cons h xs)
  show ?case
  proof (cases "h = last cur + 1")
    case True
    then show ?thesis
      using Cons.IH [of shifts "cur @ [h]"] maximal_runs_grow [OF Cons.prems(1)] by simp
  next
    case False
    have "\<not> contiguous (cur @ [h])"
      using False Cons.prems(2) by (simp add: contiguous_snoc)
    then have "maximal_runs ((shifts @ [cur]) @ [[h]])"
      using Cons.prems(1) by (simp add: maximal_runs_snoc)
    then show ?thesis
      using False Cons.IH [of "shifts @ [cur]" "[h]"] by simp
  qed
qed

lemma get_shifts_concat: "concat (get_shifts xs) = xs"
  by (cases xs) (simp_all add: get_shifts_loop_concat)

lemma get_shifts_contiguous: "list_all contiguous (get_shifts xs)"
  by (cases xs) (simp_all add: get_shifts_loop_contiguous)

lemma get_shifts_nonempty: "list_all (\<lambda>r. r \<noteq> []) (get_shifts xs)"
  by (cases xs) (simp_all add: get_shifts_loop_nonempty)

lemma get_shifts_maximal: "maximal_runs (get_shifts xs)"
  by (cases xs) (simp_all add: get_shifts_loop_maximal)

text \<open>
  Claim C1. For every input sequence of period indices (sorted or not), both copies of the
  segmentation return runs whose concatenation in order is the input, every run is
  non-empty and contiguous (each element is its predecessor plus one), no two adjacent
  runs merge into a single contiguous run, and the empty input gives the empty run list.
\<close>

theorem segment_round_trip:
  "concat (get_shifts xs) = xs
   \<and> list_all contiguous (get_shifts xs)
   \<and> list_all (\<lambda>r. r \<noteq> []) (get_shifts xs)
   \<and> maximal_runs (get_shifts xs)
   \<and> get_shifts [] = []
   \<and> WS_get_shifts xs = get_shifts xs"
  using get_shifts_concat get_shifts_contiguous get_shifts_nonempty get_shifts_maximal
    WS_get_shifts_eq
  by simp

theorem segment_round_trip_witness:
  "get_shifts [0, 1, 2, 5, 6, 9] = [[0, 1, 2], [5, 6], [9]]
   \<and> concat (get_shifts [0, 1, 2, 5, 6, 9]) = [0, 1, 2, 5, 6, 9]
   \<and> list_all contiguous (get_shifts [0, 1, 2, 5, 6, 9])
   \<and> maximal_runs (get_shifts [0, 1, 2, 5, 6, 9])
   \<and> WS_get_shifts [0, 1, 2, 5, 6, 9] = [[0, 1, 2], [5, 6], [9]]"
  using segment_round_trip [of "[0, 1, 2, 5, 6, 9]"] by simp

section \<open>Break assignment: proofs\<close>

lemma add_breaks_shifts_eq:
  "add_breaks_shifts breaks shifts = (breaks @ concat (map break_of_run shifts), None)"
proof (induction shifts arbitrary: breaks)
  case Nil
  then show ?case by simp
next
  case (Cons shift rest)
  have "6 \<le> length shift \<Longrightarrow> length shift div 2 < length shift"
    by simp
  then show ?case
    using Cons.IH by (simp add: py_getitem_def break_of_run_def)
qed

lemma add_breaks_employees_eq:
  "add_breaks_employees emps =
     (map (\<lambda>e. e\<lparr>breaks_taken := concat (map break_of_run (get_shifts (schedule e)))\<rparr>) emps, None)"
  by (induction emps) (simp_all add: add_breaks_shifts_eq WS_get_shifts_eq)

lemma add_breaks_eq:
  "add_breaks sim =
     sim\<lparr>employees :=
       map (\<lambda>e. e\<lparr>breaks_taken := concat (map break_of_run (get_shifts (schedule e)))\<rparr>)
         (employees sim)\<rparr>"
  by (simp add: add_breaks_def add_breaks_employees_eq)

lemma set_break_of_run: "set (break_of_run r) \<subseteq> set r"
proof (cases "6 \<le> length r")
  case True
  then have "length r div 2 < length r" by simp
  then have "r ! (length r div 2) \<in> set r" by (rule nth_mem)
  then show ?thesis using True by (simp add: break_of_run_def)
next
  case False
  then show ?thesis by (simp add: break_of_run_def)
qed

lemma set_breaks_concat: "set (concat (map break_of_run rs)) \<subseteq> set (concat rs)"
  by (induction rs) (use set_break_of_run in auto)

lemma breaks_filter:
  "distinct (concat rs) \<Longrightarrow> list_all (\<lambda>r. r \<noteq> []) rs \<Longrightarrow> run \<in> set rs \<Longrightarrow>
   filter (\<lambda>b. b \<in> set run) (concat (map break_of_run rs)) = break_of_run run"
proof (induction rs)
  case Nil
  then show ?case by simp
next
  case (Cons a rs)
  have disj: "set a \<inter> set (concat rs) = {}" and d: "distinct (concat rs)"
    using Cons.prems(1) by auto
  show ?case
  proof (cases "run = a")
    case True
    have "filter (\<lambda>b. b \<in> set a) (break_of_run a) = break_of_run a"
      using set_break_of_run [of a] by (simp add: filter_id_conv subset_iff)
    moreover have "filter (\<lambda>b. b \<in> set a) (concat (map break_of_run rs)) = []"
      using set_breaks_concat [of rs] disj by (auto simp: filter_empty_conv)
    ultimately show ?thesis using True by simp
  next
    case False
    then have mem: "run \<in> set rs" using Cons.prems(3) by simp
    then have "set run \<subseteq> set (concat rs)" by auto
    then have "filter (\<lambda>b. b \<in> set run) (break_of_run a) = []"
      using set_break_of_run [of a] disj by (auto simp: filter_empty_conv)
    then show ?thesis
      using Cons.IH [OF d _ mem] Cons.prems(2) by simp
  qed
qed

lemma contiguous_nth:
  "contiguous r \<Longrightarrow> k < length r \<Longrightarrow> r ! k = hd r + int k"
proof (induction r arbitrary: k rule: contiguous.induct)
  case 1
  then show ?case by simp
next
  case (2 x)
  then show ?case by simp
next
  case (3 x y ys)
  then show ?case by (cases k) auto
qed


lemma distinct_breaks:
  "distinct (concat rs) \<Longrightarrow> distinct (concat (map break_of_run rs))"
proof (induction rs)
  case Nil
  then show ?case by simp
next
  case (Cons a rs)
  have "distinct (break_of_run a)"
    by (simp add: break_of_run_def)
  moreover have "set (break_of_run a) \<inter> set (concat (map break_of_run rs)) = {}"
    using set_break_of_run [of a] set_breaks_concat [of rs] Cons.prems by auto
  ultimately show ?case
    using Cons by simp
qed

lemma add_breaks_length: "length (employees (add_breaks sim)) = length (employees sim)"
  by (simp add: add_breaks_eq)

lemma add_breaks_nth:
  "i < length (employees sim) \<Longrightarrow>
   employees (add_breaks sim) ! i =
     (employees sim ! i)\<lparr>breaks_taken :=
        concat (map break_of_run (get_shifts (schedule (employees sim ! i))))\<rparr>"
  by (simp add: add_breaks_eq)

text \<open>
  Claim C2. For every employee, after \<open>add_breaks\<close> the list \<open>breaks_taken\<close> is made, run
  by run in order, of exactly one break \<open>run[L // 2]\<close> for each run of length \<open>L \<ge> 6\<close> of
  the segmented schedule and of nothing for a run of length \<open>L < 6\<close>. When the schedule
  has no repeated period, the breaks that lie in a run are that one break, or none.
\<close>

theorem add_breaks_one_break_per_long_run:
  "i < length (employees sim) \<Longrightarrow>
   length (employees (add_breaks sim)) = length (employees sim) \<and>
   breaks_taken (employees (add_breaks sim) ! i) =
     concat (map (\<lambda>run. if 6 \<le> length run then [run ! (length run div 2)] else [])
       (WS_get_shifts (schedule (employees sim ! i)))) \<and>
   (distinct (schedule (employees sim ! i)) \<longrightarrow>
     (\<forall>run \<in> set (WS_get_shifts (schedule (employees sim ! i))).
        filter (\<lambda>b. b \<in> set run) (breaks_taken (employees (add_breaks sim) ! i)) =
          (if 6 \<le> length run then [run ! (length run div 2)] else [])))"
proof -
  assume i: "i < length (employees sim)"
  let ?sched = "schedule (employees sim ! i)"
  have br: "breaks_taken (employees (add_breaks sim) ! i) =
      concat (map break_of_run (get_shifts ?sched))"
    using i by (simp add: add_breaks_nth)
  have "filter (\<lambda>b. b \<in> set run) (concat (map break_of_run (get_shifts ?sched))) =
      break_of_run run"
    if "distinct ?sched" and "run \<in> set (get_shifts ?sched)" for run
    using that breaks_filter [of "get_shifts ?sched" run] get_shifts_nonempty [of ?sched]
    by (simp add: get_shifts_concat)
  then show ?thesis
    using br add_breaks_length [of sim]
    by (simp add: WS_get_shifts_eq break_of_run_def [abs_def])
qed

theorem add_breaks_one_break_per_long_run_witness:
  "WS_get_shifts [0, 1, 2, 3, 4, 5, 6, 7, 10, 11, 12] = [[0, 1, 2, 3, 4, 5, 6, 7], [10, 11, 12]]
   \<and> breaks_taken (employees (add_breaks
        \<lparr>employees = [(Employee 0 [])\<lparr>schedule := [0, 1, 2, 3, 4, 5, 6, 7, 10, 11, 12]\<rparr>]\<rparr>) ! 0)
      = [4]"
  using add_breaks_one_break_per_long_run
    [of 0 "\<lparr>employees = [(Employee 0 [])\<lparr>schedule := [0, 1, 2, 3, 4, 5, 6, 7, 10, 11, 12]\<rparr>]\<rparr>"]
  by (simp add: Employee_def)

text \<open>
  Claim C3, as amended. For every run of even length \<open>L \<ge> 6\<close> of an employee's segmented
  schedule, the one break that \<open>add_breaks\<close> records for the run, at the run's place in
  \<open>breaks_taken\<close>, is \<open>run[L div 2]\<close>: the upper of the two central positions
  \<open>L div 2 - 1\<close> and \<open>L div 2\<close>, one period after the lower-middle element.
\<close>

theorem add_breaks_even_run_upper_middle:
  "i < length (employees sim) \<Longrightarrow>
   run \<in> set (WS_get_shifts (schedule (employees sim ! i))) \<Longrightarrow>
   even (length run) \<Longrightarrow> 6 \<le> length run \<Longrightarrow>
   (\<exists>pre post.
      WS_get_shifts (schedule (employees sim ! i)) = pre @ run # post \<and>
      breaks_taken (employees (add_breaks sim) ! i) =
        concat (map break_of_run pre) @ run ! (length run div 2) # concat (map break_of_run post))
   \<and> run ! (length run div 2) = run ! (length run div 2 - 1) + 1
   \<and> max (length run div 2 - 1) (length run div 2) = length run div 2"
proof -
  assume i: "i < length (employees sim)"
    and run: "run \<in> set (WS_get_shifts (schedule (employees sim ! i)))"
    and ev: "even (length run)" and len: "6 \<le> length run"
  let ?runs = "get_shifts (schedule (employees sim ! i))"
  from run obtain pre post where split: "?runs = pre @ run # post"
    using split_list [of run ?runs] by (auto simp: WS_get_shifts_eq)
  have "breaks_taken (employees (add_breaks sim) ! i) = concat (map break_of_run ?runs)"
    using i by (simp add: add_breaks_nth)
  also have "\<dots> = concat (map break_of_run pre) @ run ! (length run div 2)
      # concat (map break_of_run post)"
    using len by (simp add: split break_of_run_def)
  finally have ex: "\<exists>pre post.
      WS_get_shifts (schedule (employees sim ! i)) = pre @ run # post \<and>
      breaks_taken (employees (add_breaks sim) ! i) =
        concat (map break_of_run pre) @ run ! (length run div 2) # concat (map break_of_run post)"
    using split by (auto simp: WS_get_shifts_eq)
  have cont: "contiguous run"
    using run get_shifts_contiguous [of "schedule (employees sim ! i)"]
    by (simp add: WS_get_shifts_eq list_all_iff)
  have "run ! (length run div 2) = hd run + int (length run div 2)"
    using cont len by (intro contiguous_nth) simp_all
  moreover have "run ! (length run div 2 - 1) = hd run + int (length run div 2 - 1)"
    using cont len by (intro contiguous_nth) simp_all
  moreover have "0 < length run div 2"
    using len by simp
  ultimately have "run ! (length run div 2) = run ! (length run div 2 - 1) + 1"
    by simp
  then show ?thesis
    using ex by simp
qed

theorem add_breaks_even_run_upper_middle_witness:
  "[0, 1, 2, 3, 4, 5, 6, 7] \<in> set (WS_get_shifts [0, 1, 2, 3, 4, 5, 6, 7])
   \<and> even (length [0, 1, 2, 3, 4, 5, 6, 7 :: int])
   \<and> [0, 1, 2, 3, 4, 5, 6, 7] ! (length [0, 1, 2, 3, 4, 5, 6, 7 :: int] div 2)
       = [0, 1, 2, 3, 4, 5, 6, 7] ! (length [0, 1, 2, 3, 4, 5, 6, 7 :: int] div 2 - 1) + (1 :: int)"
  using add_breaks_even_run_upper_middle
    [of 0 "\<lparr>employees = [(Employee 0 [])\<lparr>schedule := [0, 1, 2, 3, 4, 5, 6, 7]\<rparr>]\<rparr>"
        "[0, 1, 2, 3, 4, 5, 6, 7]"]
  by (simp add: Employee_def)

text \<open>
  Claim C3 as stated fails: for the run \<open>[0..7]\<close> of even length 8 the recorded break is
  period 4, the element at index \<open>8 div 2 = 4\<close>, and not the lower-middle element 3 at
  index \<open>8 div 2 - 1\<close>.
\<close>

theorem add_breaks_lower_middle_counterexample:
  "WS_get_shifts [0, 1, 2, 3, 4, 5, 6, 7] = [[0, 1, 2, 3, 4, 5, 6, 7]]
   \<and> even (length [0, 1, 2, 3, 4, 5, 6, 7 :: int])
   \<and> 6 \<le> length [0, 1, 2, 3, 4, 5, 6, 7 :: int]
   \<and> breaks_taken (employees (add_breaks
        \<lparr>employees = [(Employee 0 [])\<lparr>schedule := [0, 1, 2, 3, 4, 5, 6, 7]\<rparr>]\<rparr>) ! 0) = [4]
   \<and> [0, 1, 2, 3, 4, 5, 6, 7] ! (length [0, 1, 2, 3, 4, 5, 6, 7 :: int] div 2 - 1) = (3 :: int)
   \<and> breaks_taken (employees (add_breaks
        \<lparr>employees = [(Employee 0 [])\<lparr>schedule := [0, 1, 2, 3, 4, 5, 6, 7]\<rparr>]\<rparr>) ! 0)
      \<noteq> [[0, 1, 2, 3, 4, 5, 6, 7] ! (length [0, 1, 2, 3, 4, 5, 6, 7 :: int] div 2 - 1)]"
  by (simp add: add_breaks_def py_getitem_def Employee_def)

text \<open>
  Claim C9. \<open>add_breaks\<close> changes no field of any employee but \<open>breaks_taken\<close>: every
  schedule is as before (no break period is removed from it), and every period recorded
  in \<open>breaks_taken\<close> is an element of that employee's schedule.
\<close>

theorem add_breaks_keeps_schedule:
  "map schedule (employees (add_breaks sim)) = map schedule (employees sim)
   \<and> map (\<lambda>e. e\<lparr>breaks_taken := []\<rparr>) (employees (add_breaks sim))
       = map (\<lambda>e. e\<lparr>breaks_taken := []\<rparr>) (employees sim)
   \<and> list_all (\<lambda>e. set (breaks_taken e) \<subseteq> set (schedule e)) (employees (add_breaks sim))"
proof -
  have "set (concat (map break_of_run (get_shifts xs))) \<subseteq> set xs" for xs
    using set_breaks_concat [of "get_shifts xs"] by (simp add: get_shifts_concat)
  then show ?thesis
    by (simp add: add_breaks_eq list_all_iff comp_def)
qed

theorem add_breaks_keeps_schedule_witness:
  "map schedule (employees (add_breaks
      \<lparr>employees = [(Employee 0 [])\<lparr>schedule := [0, 1, 2, 3, 4, 5, 6, 7]\<rparr>]\<rparr>))
     = [[0, 1, 2, 3, 4, 5, 6, 7]]
   \<and> map breaks_taken (employees (add_breaks
      \<lparr>employees = [(Employee 0 [])\<lparr>schedule := [0, 1, 2, 3, 4, 5, 6, 7]\<rparr>]\<rparr>)) = [[4]]"
  using add_breaks_keeps_schedule
    [of "\<lparr>employees = [(Employee 0 [])\<lparr>schedule := [0, 1, 2, 3, 4, 5, 6, 7]\<rparr>]\<rparr>"]
  by (simp add: add_breaks_def py_getitem_def Employee_def)

section \<open>Fallback schedule: proofs\<close>

lemma py_getitem_less: "i < length xs \<Longrightarrow> py_getitem xs i = Inr (xs ! i)"
  by (simp add: py_getitem_def)

lemma fallback_hours_eq:
  "fallback_hours sched day hours = sched @ map (\<lambda>hour. day * 24 + hour) hours"
  by (induction hours arbitrary: sched) simp_all

lemma fallback_days_eq:
  "fallback_days sched s t days = sched @ concat (map (template_day (s, t)) days)"
  by (induction days arbitrary: sched) (simp_all add: fallback_hours_eq template_day_def py_range_def)

lemma fallback_shifts_template:
  "py_getitem fallback_shifts (e mod length fallback_shifts) = Inr (shift_template (e mod 3))"
proof -
  have "e mod 3 = 0 \<or> e mod 3 = 1 \<or> e mod 3 = 2" by presburger
  then show ?thesis
    by (auto simp: py_getitem_def fallback_shifts_def shift_template_def)
qed

lemma length_set_schedules [simp]: "length (set_schedules F S emps) = length emps"
  by (simp add: set_schedules_def)

lemma nth_set_schedules:
  "i < length emps \<Longrightarrow>
   set_schedules F S emps ! i = (if i \<in> S then (emps ! i)\<lparr>schedule := F i\<rparr> else emps ! i)"
  by (simp add: set_schedules_def)

lemma set_schedules_empty [simp]: "set_schedules F {} emps = emps"
  by (simp add: list_eq_iff_nth_eq nth_set_schedules)

lemma set_schedules_update:
  "e < length emps \<Longrightarrow>
   set_schedules F S (emps[e := (emps ! e)\<lparr>schedule := F e\<rparr>]) = set_schedules F (insert e S) emps"
  by (auto simp: list_eq_iff_nth_eq nth_set_schedules nth_list_update)

lemma fallback_employees_eq:
  "set es \<subseteq> {..<length emps} \<Longrightarrow>
   fallback_employees h emps es =
     (set_schedules (\<lambda>i. fallback_schedule i h) (set es) emps, None)"
proof (induction es arbitrary: emps)
  case Nil
  then show ?case by simp
next
  case (Cons e es)
  let ?F = "\<lambda>i. fallback_schedule i h"
  let ?emps = "emps[e := (emps ! e)\<lparr>schedule := ?F e\<rparr>]"
  have e: "e < length emps" and es: "set es \<subseteq> {..<length ?emps}"
    using Cons.prems by simp_all
  have "fallback_employees h emps (e # es) = fallback_employees h ?emps es"
    using e
    by (simp add: Let_def fallback_shifts_template py_getitem_less fallback_days_eq
        fallback_schedule_def py_range_def split: prod.split)
  also have "\<dots> = (set_schedules ?F (set es) ?emps, None)"
    using Cons.IH [OF es] .
  finally have "fallback_employees h emps (e # es) = (set_schedules ?F (set es) ?emps, None)" .
  then show ?case
    using set_schedules_update [OF e, of ?F "set es"]
    by (simp del: fallback_employees.simps)
qed

lemma generate_fallback_schedule_eq:
  "generate_fallback_schedule h sim =
     (sim\<lparr>employees := set_schedules (\<lambda>i. fallback_schedule i h) UNIV (employees sim)\<rparr>, None)"
proof -
  have "set_schedules F {..<length emps} emps = set_schedules F UNIV emps" for F emps
    by (simp add: list_eq_iff_nth_eq nth_set_schedules)
  then show ?thesis
    using fallback_employees_eq [of "[0..<length (employees sim)]" "employees sim" h]
    by (simp add: generate_fallback_schedule_def lessThan_atLeast0)
qed


subsection \<open>The shape of a fallback schedule\<close>

lemma shift_template_cases:
  "shift_template k = (0, 8) \<or> shift_template k = (8, 16) \<or> shift_template k = (16, 24)"
  by (simp add: shift_template_def)

lemma set_template_day:
  "set (template_day t d) = {p. d mod 2 = 0 \<and> d * 24 + fst t \<le> p \<and> p < d * 24 + snd t}"
  by (auto simp: template_day_def image_iff)

lemma sorted_template_day: "sorted_wrt (<) (template_day t d)"
  by (simp add: template_day_def sorted_wrt_map)

lemma sorted_concat_blocks:
  assumes "sorted_wrt (<) ds"
    and "\<And>d. sorted_wrt (<) (blk d)"
    and "\<And>d d' x y. d < d' \<Longrightarrow> x \<in> set (blk d) \<Longrightarrow> y \<in> set (blk d') \<Longrightarrow> x < y"
  shows "sorted_wrt (<) (concat (map blk (ds :: int list)) :: int list)"
  using assms(1)
proof (induction ds)
  case Nil
  then show ?case by simp
next
  case (Cons d ds)
  then show ?case
    using assms(2) assms(3) by (auto simp: sorted_wrt_append)
qed

lemma set_fallback_schedule:
  "set (fallback_schedule e h) =
     {p. \<exists>d. 0 \<le> d \<and> d < h \<and> d mod 2 = 0 \<and>
          d * 24 + fst (shift_template (e mod 3)) \<le> p \<and> p < d * 24 + snd (shift_template (e mod 3))}"
  by (auto simp: fallback_schedule_def set_template_day)

lemma sorted_fallback_schedule: "sorted_wrt (<) (fallback_schedule e h)"
  unfolding fallback_schedule_def
proof (rule sorted_concat_blocks)
  show "sorted_wrt (<) [0..h - 1]" by simp
next
  fix d
  show "sorted_wrt (<) (template_day (shift_template (e mod 3)) d)"
    by (rule sorted_template_day)
next
  fix d d' x y :: int
  assume "d < d'" "x \<in> set (template_day (shift_template (e mod 3)) d)"
    "y \<in> set (template_day (shift_template (e mod 3)) d')"
  then show "x < y"
    using shift_template_cases [of "e mod 3"] by (auto simp: set_template_day)
qed

lemma fallback_schedule_range:
  "p \<in> set (fallback_schedule e h) \<Longrightarrow> 0 \<le> p \<and> p < h * 24"
  using shift_template_cases [of "e mod 3"] by (auto simp: set_fallback_schedule)









section \<open>Schedule generation: proofs\<close>

lemma extract_periods_ok:
  "list_all (\<lambda>p. readable (val p)) ps \<Longrightarrow>
   extract_periods val sched ps = Inr (sched @ filter (\<lambda>p. assigned (val p)) ps)"
  by (induction ps arbitrary: sched) (auto simp: readable_def assigned_def split: sum.splits)

lemma extract_periods_fail:
  "\<not> list_all (\<lambda>p. readable (val p)) ps \<Longrightarrow> \<exists>ex. extract_periods val sched ps = Inl ex"
  by (induction ps arbitrary: sched) (auto simp: readable_def split: sum.splits)

lemma set_schedules_twice:
  "length emps' = length emps \<Longrightarrow>
   (\<And>i. i < length emps \<Longrightarrow> \<exists>s. emps' ! i = (emps ! i)\<lparr>schedule := s\<rparr>) \<Longrightarrow>
   set_schedules F UNIV emps' = set_schedules F UNIV emps"
  by (fastforce simp: list_eq_iff_nth_eq nth_set_schedules)

lemma extract_employees_ok:
  "set es \<subseteq> {..<length emps} \<Longrightarrow>
   list_all (\<lambda>e. list_all (\<lambda>p. readable (working_value b e p)) ps) es \<Longrightarrow>
   extract_employees b ps emps es =
     (set_schedules (\<lambda>e. filter (\<lambda>p. assigned (working_value b e p)) ps) (set es) emps, None)"
proof (induction es arbitrary: emps)
  case Nil
  then show ?case by simp
next
  case (Cons e es)
  let ?F = "\<lambda>e. filter (\<lambda>p. assigned (working_value b e p)) ps"
  let ?emps = "emps[e := (emps ! e)\<lparr>schedule := ?F e\<rparr>]"
  have e: "e < length emps" and es: "set es \<subseteq> {..<length ?emps}"
    using Cons.prems(1) by simp_all
  have "extract_employees b ps emps (e # es) = extract_employees b ps ?emps es"
    using e Cons.prems(2) by (simp add: extract_periods_ok py_getitem_less)
  also have "\<dots> = (set_schedules ?F (set es) ?emps, None)"
    using Cons.IH [OF es] Cons.prems(2) by simp
  finally have "extract_employees b ps emps (e # es) = (set_schedules ?F (set es) ?emps, None)" .
  then show ?case
    using set_schedules_update [OF e, of ?F "set es"]
    by (simp del: extract_employees.simps)
qed

lemma extract_employees_frame:
  "extract_employees b ps emps es = (emps', r) \<Longrightarrow>
   length emps' = length emps \<and> (\<forall>i<length emps. \<exists>s. emps' ! i = (emps ! i)\<lparr>schedule := s\<rparr>)"
proof (induction es arbitrary: emps)
  case Nil
  then have "emps' = emps" by simp
  moreover have "e = e\<lparr>schedule := schedule e\<rparr>" for e :: employee by simp
  ultimately show ?case by blast
next
  case (Cons e es)
  have same: "x = x\<lparr>schedule := schedule x\<rparr>" for x :: employee by simp
  show ?case
  proof (cases "extract_periods (working_value b e) [] ps")
    case (Inl ex)
    then have "emps' = emps" using Cons.prems by simp
    then show ?thesis using same by blast
  next
    case (Inr sched)
    show ?thesis
    proof (cases "e < length emps")
      case False
      then have "emps' = emps" using Cons.prems Inr by (simp add: py_getitem_def)
      then show ?thesis using same by blast
    next
      case True
      let ?emps = "emps[e := (emps ! e)\<lparr>schedule := sched\<rparr>]"
      have "extract_employees b ps ?emps es = (emps', r)"
        using Cons.prems Inr True by (simp add: py_getitem_less)
      from Cons.IH [OF this]
      have len: "length emps' = length emps"
        and nth: "\<forall>i<length emps. \<exists>s. emps' ! i = (?emps ! i)\<lparr>schedule := s\<rparr>"
        by simp_all
      have "\<exists>s. emps' ! i = (emps ! i)\<lparr>schedule := s\<rparr>" if "i < length emps" for i
      proof -
        from nth that obtain s where s: "emps' ! i = (?emps ! i)\<lparr>schedule := s\<rparr>"
          by blast
        have "(?emps ! i)\<lparr>schedule := s\<rparr> = (emps ! i)\<lparr>schedule := s\<rparr>"
          using that by (cases "i = e") simp_all
        with s have "emps' ! i = (emps ! i)\<lparr>schedule := s\<rparr>"
          by simp
        then show ?thesis by blast
      qed
      then show ?thesis using len by blast
    qed
  qed
qed

lemma extract_employees_fail:
  "\<not> list_all (\<lambda>e. list_all (\<lambda>p. readable (working_value b e p)) ps) es \<Longrightarrow>
   \<exists>emps' ex. extract_employees b ps emps es = (emps', Some ex)"
proof (induction es arbitrary: emps)
  case Nil
  then show ?case by simp
next
  case (Cons e es)
  show ?case
  proof (cases "list_all (\<lambda>p. readable (working_value b e p)) ps")
    case False
    then show ?thesis
      using extract_periods_fail [of "working_value b e" ps "[]"] by auto
  next
    case True
    then have "\<not> list_all (\<lambda>e. list_all (\<lambda>p. readable (working_value b e p)) ps) es"
      using Cons.prems by simp
    from Cons.IH [OF this] show ?thesis
      using True by (auto simp: extract_periods_ok split: sum.splits)
  qed
qed


lemma set_schedules_lessThan:
  "set_schedules F {..<length emps} emps = set_schedules F UNIV emps"
  by (simp add: list_eq_iff_nth_eq nth_set_schedules)

lemma generate_schedule_try_optimal:
  assumes "solver_optimal b (length (employees sim)) h"
  shows "generate_schedule_try b h sim =
     (case extract_employees b (py_range 0 (24 * h)) (employees sim) [0..<length (employees sim)] of
        (emps, ex) \<Rightarrow> (sim\<lparr>employees := emps\<rparr>, ex))"
  using assms by (auto simp: generate_schedule_try_def solver_optimal_def split: sum.splits)

lemma generate_schedule_try_not_optimal:
  assumes "\<not> solver_optimal b (length (employees sim)) h"
  shows "generate_schedule_try b h sim = generate_fallback_schedule h sim
     \<or> (\<exists>ex. generate_schedule_try b h sim = (sim, Some ex))"
  using assms by (auto simp: generate_schedule_try_def solver_optimal_def split: sum.splits)

lemma generate_schedule_backend:
  assumes "backend_path b (length (employees sim)) h"
  shows "generate_schedule b h sim =
     Inr (sim\<lparr>employees := set_schedules (\<lambda>e. optimal_schedule b e h) UNIV (employees sim)\<rparr>)"
proof -
  let ?n = "length (employees sim)"
  have opt: "solver_optimal b ?n h" and rd: "values_readable b ?n h"
    using assms by (simp_all add: backend_path_def)
  have "extract_employees b (py_range 0 (24 * h)) (employees sim) [0..<?n] =
      (set_schedules (\<lambda>e. optimal_schedule b e h) (set [0..<?n]) (employees sim), None)"
    unfolding optimal_schedule_def
    using rd by (intro extract_employees_ok) (auto simp: values_readable_def)
  then show ?thesis
    using generate_schedule_try_optimal [OF opt] set_schedules_lessThan [of _ "employees sim"]
    by (simp add: generate_schedule_def lessThan_atLeast0)
qed

lemma generate_schedule_fallback:
  assumes "\<not> backend_path b (length (employees sim)) h"
  shows "generate_schedule b h sim =
     Inr (sim\<lparr>employees := set_schedules (\<lambda>e. fallback_schedule e h) UNIV (employees sim)\<rparr>)"
proof (cases "solver_optimal b (length (employees sim)) h")
  case False
  from generate_schedule_try_not_optimal [OF this] show ?thesis
    by (auto simp: generate_schedule_def generate_fallback_schedule_eq)
next
  case True
  let ?n = "length (employees sim)"
  have "\<not> list_all (\<lambda>e. list_all (\<lambda>p. readable (working_value b e p)) (py_range 0 (24 * h))) [0..<?n]"
    using assms True by (simp add: backend_path_def values_readable_def)
  from extract_employees_fail [OF this]
  obtain emps' ex where ex: "extract_employees b (py_range 0 (24 * h)) (employees sim) [0..<?n]
      = (emps', Some ex)"
    by blast
  from extract_employees_frame [OF this]
  have "set_schedules (\<lambda>e. fallback_schedule e h) UNIV emps'
      = set_schedules (\<lambda>e. fallback_schedule e h) UNIV (employees sim)"
    by (intro set_schedules_twice) simp_all
  then show ?thesis
    using generate_schedule_try_optimal [OF True] ex
    by (simp add: generate_schedule_def generate_fallback_schedule_eq)
qed

lemma generate_schedule_eq:
  "generate_schedule b h sim =
     Inr (sim\<lparr>employees :=
       set_schedules (\<lambda>e. if backend_path b (length (employees sim)) h
                          then optimal_schedule b e h else fallback_schedule e h)
         UNIV (employees sim)\<rparr>)"
  using generate_schedule_backend [of b sim h] generate_schedule_fallback [of b sim h]
  by (cases "backend_path b (length (employees sim)) h") simp_all



text \<open>
  Claim C4. \<open>generate_schedule\<close> always returns (no exception reaches the caller), and
  its result is never mixed: when the backend reported an optimal solution and every
  value could be read, every employee has the schedule extracted from the backend's
  assignment; in every other case (the backend raised, it reported another status or
  termination condition, or reading a value raised) the result is the one of the
  fallback run on the initial state, every employee having the fallback schedule of its
  index and the horizon.
\<close>

theorem generate_schedule_no_mixed_result:
  "\<exists>sim'. generate_schedule b h sim = Inr sim'
     \<and> length (employees sim') = length (employees sim)
     \<and> (if backend_path b (length (employees sim)) h
        then map schedule (employees sim')
             = map (\<lambda>e. optimal_schedule b e h) [0..<length (employees sim)]
        else map schedule (employees sim')
             = map (\<lambda>e. fallback_schedule e h) [0..<length (employees sim)]
           \<and> sim' = fst (generate_fallback_schedule h sim))"
proof -
  have "map schedule (set_schedules F UNIV emps) = map F [0..<length emps]" for F emps
    by (rule nth_equalityI) (simp_all add: nth_set_schedules)
  then show ?thesis
    by (simp add: generate_schedule_eq generate_fallback_schedule_eq)
qed


theorem generate_schedule_no_mixed_result_witness:
  "generate_schedule backend_unavailable 1 \<lparr>employees = [Employee 0 [], Employee 1 []]\<rparr>
     = Inr \<lparr>employees = [(Employee 0 [])\<lparr>schedule := [0, 1, 2, 3, 4, 5, 6, 7]\<rparr>,
                         (Employee 1 [])\<lparr>schedule := [8, 9, 10, 11, 12, 13, 14, 15]\<rparr>]\<rparr>
   \<and> \<not> backend_path backend_unavailable 2 1
   \<and> map (\<lambda>e. fallback_schedule e 1) [0..<2]
       = [[0, 1, 2, 3, 4, 5, 6, 7], [8, 9, 10, 11, 12, 13, 14, 15]]"
  using generate_schedule_no_mixed_result
    [of backend_unavailable 1 "\<lparr>employees = [Employee 0 [], Employee 1 []]\<rparr>"]
  by (simp add: generate_schedule_def generate_schedule_try_def backend_unavailable_def
      generate_fallback_schedule_def py_getitem_def fallback_shifts_def py_range_def Employee_def
      backend_path_def solver_optimal_def fallback_schedule_def template_day_def
      shift_template_def upto_rec1 upt_rec)

text \<open>
  Claim C5. The fallback never raises and gives employee \<open>e\<close> the schedule
  \<open>fallback_schedule e h\<close>, a function of the employee index and the horizon alone. So two
  runs on simulators with the same number of employees give the same schedules, whatever
  the employees' schedules (and other fields) were before, and a second run on the
  result of the first changes nothing.
\<close>

theorem fallback_deterministic:
  "snd (generate_fallback_schedule h sim) = None
   \<and> map schedule (employees (fst (generate_fallback_schedule h sim)))
       = map (\<lambda>e. fallback_schedule e h) [0..<length (employees sim)]
   \<and> (length (employees sim1) = length (employees sim2) \<longrightarrow>
        map schedule (employees (fst (generate_fallback_schedule h sim1)))
        = map schedule (employees (fst (generate_fallback_schedule h sim2))))
   \<and> generate_fallback_schedule h (fst (generate_fallback_schedule h sim))
       = generate_fallback_schedule h sim"
proof -
  have m: "map schedule (set_schedules F UNIV emps) = map F [0..<length emps]" for F emps
    by (rule nth_equalityI) (simp_all add: nth_set_schedules)
  have "set_schedules F UNIV (set_schedules F UNIV emps) = set_schedules F UNIV emps" for F emps
    by (rule nth_equalityI) (simp_all add: nth_set_schedules)
  then show ?thesis
    by (simp add: generate_fallback_schedule_eq m)
qed

theorem fallback_deterministic_witness:
  "length (employees \<lparr>employees = [(Employee 0 [])\<lparr>schedule := [5, 3]\<rparr>]\<rparr>)
     = length (employees \<lparr>employees = [Employee 7 [''operator'']]\<rparr>)
   \<and> map schedule (employees (fst (generate_fallback_schedule 2
        \<lparr>employees = [(Employee 0 [])\<lparr>schedule := [5, 3]\<rparr>]\<rparr>))) = [[0, 1, 2, 3, 4, 5, 6, 7]]
   \<and> map schedule (employees (fst (generate_fallback_schedule 2
        \<lparr>employees = [Employee 7 [''operator'']]\<rparr>))) = [[0, 1, 2, 3, 4, 5, 6, 7]]"
  using fallback_deterministic
    [of 2 "\<lparr>employees = [(Employee 0 [])\<lparr>schedule := [5, 3]\<rparr>]\<rparr>"
        "\<lparr>employees = [(Employee 0 [])\<lparr>schedule := [5, 3]\<rparr>]\<rparr>"
        "\<lparr>employees = [Employee 7 [''operator'']]\<rparr>"]
  by (simp add: generate_fallback_schedule_def py_getitem_def fallback_shifts_def py_range_def
      Employee_def fallback_schedule_def template_day_def shift_template_def upto_rec1 upt_rec)

subsection \<open>Order and range of the schedules\<close>

lemma sorted_optimal_schedule: "sorted_wrt (<) (optimal_schedule b e h)"
  by (simp add: optimal_schedule_def py_range_def sorted_wrt_filter)

lemma optimal_schedule_range: "p \<in> set (optimal_schedule b e h) \<Longrightarrow> 0 \<le> p \<and> p < h * 24"
  by (auto simp: optimal_schedule_def py_range_def)

text \<open>
  Claim C6. \<open>generate_schedule\<close> returns, and in its result every employee's schedule is
  strictly increasing with every element in \<open>[0, horizon_days * 24)\<close>. This holds for every
  backend, hence on the extraction path and on the fallback path: both the schedule
  extracted from a backend's assignment and the fallback schedule have the two
  properties.
\<close>

theorem generate_schedule_sorted_in_range:
  "\<exists>sim'. generate_schedule b h sim = Inr sim'
     \<and> list_all (\<lambda>emp. sorted_wrt (<) (schedule emp)
                 \<and> list_all (\<lambda>p. 0 \<le> p \<and> p < h * 24) (schedule emp)) (employees sim')
     \<and> sorted_wrt (<) (optimal_schedule b e h)
     \<and> list_all (\<lambda>p. 0 \<le> p \<and> p < h * 24) (optimal_schedule b e h)
     \<and> sorted_wrt (<) (fallback_schedule e h)
     \<and> list_all (\<lambda>p. 0 \<le> p \<and> p < h * 24) (fallback_schedule e h)"
proof -
  have opt: "list_all (\<lambda>p. 0 \<le> p \<and> p < h * 24) (optimal_schedule b i h)" for i
    using optimal_schedule_range [of _ b i h] by (simp add: list_all_iff)
  have fb: "list_all (\<lambda>p. 0 \<le> p \<and> p < h * 24) (fallback_schedule i h)" for i
    using fallback_schedule_range [of _ i h] by (simp add: list_all_iff)
  let ?F = "\<lambda>i. if backend_path b (length (employees sim)) h
      then optimal_schedule b i h else fallback_schedule i h"
  have "sorted_wrt (<) (?F i) \<and> list_all (\<lambda>p. 0 \<le> p \<and> p < h * 24) (?F i)" for i
    using opt fb sorted_optimal_schedule sorted_fallback_schedule by simp
  then have "list_all (\<lambda>emp. sorted_wrt (<) (schedule emp)
        \<and> list_all (\<lambda>p. 0 \<le> p \<and> p < h * 24) (schedule emp))
      (set_schedules ?F UNIV (employees sim))"
    by (simp add: list_all_iff set_schedules_def)
  then show ?thesis
    using opt fb sorted_optimal_schedule sorted_fallback_schedule
    by (simp add: generate_schedule_eq)
qed

theorem generate_schedule_sorted_in_range_witness:
  "generate_schedule backend_first_hour 2 \<lparr>employees = [Employee 0 []]\<rparr>
     = Inr \<lparr>employees = [(Employee 0 [])\<lparr>schedule := [0, 24]\<rparr>]\<rparr>
   \<and> sorted_wrt (<) [0, 24 :: int]
   \<and> fallback_schedule 0 2 = [0, 1, 2, 3, 4, 5, 6, 7]"
  using generate_schedule_sorted_in_range
    [of backend_first_hour 2 "\<lparr>employees = [Employee 0 []]\<rparr>" 0]
  by (simp add: generate_schedule_def generate_schedule_try_def backend_first_hour_def
      py_getitem_def py_range_def Employee_def fallback_schedule_def template_day_def
      shift_template_def upto_rec1 upt_rec)


subsection \<open>The daily cap\<close>










section \<open>The scenario of four employees and seven days\<close>

lemma scenario_generate:
  "generate_schedule backend_unavailable 7 main_simulator = Inr scenario_scheduled"
  by (simp add: scenario_scheduled_def generate_schedule_eq)

lemma scenario_schedules:
  "map schedule (employees scenario_scheduled)
     = [[0..7] @ [48..55] @ [96..103] @ [144..151],
        [8..15] @ [56..63] @ [104..111] @ [152..159],
        [16..23] @ [64..71] @ [112..119] @ [160..167],
        [0..7] @ [48..55] @ [96..103] @ [144..151]]"
  by (simp add: scenario_scheduled_def generate_schedule_def generate_schedule_try_def
      backend_unavailable_def generate_fallback_schedule_def py_getitem_def fallback_shifts_def
      py_range_def Employee_def main_simulator_def SKILLS_MATRIX_def upto_rec1 upt_rec)

lemma map_schedule_comp:
  "map (\<lambda>emp. f (schedule emp)) emps = map f (map schedule emps)"
  by (simp add: comp_def)

lemma scenario_breaks:
  "map breaks_taken (employees (add_breaks scenario_scheduled))
     = [[4, 52, 100, 148], [12, 60, 108, 156], [20, 68, 116, 164], [4, 52, 100, 148]]"
proof -
  let ?f = "\<lambda>xs. concat (map break_of_run (get_shifts xs))"
  have "map breaks_taken (employees (add_breaks scenario_scheduled))
      = map ?f (map schedule (employees scenario_scheduled))"
    by (simp add: add_breaks_eq comp_def)
  also have "\<dots> = [[4, 52, 100, 148], [12, 60, 108, 156], [20, 68, 116, 164], [4, 52, 100, 148]]"
    unfolding scenario_schedules by (simp add: break_of_run_def upto_rec1)
  finally show ?thesis .
qed

lemma scenario_runs:
  "map WS_get_shifts (map schedule (employees scenario_scheduled))
     = [[[0..7], [48..55], [96..103], [144..151]],
        [[8..15], [56..63], [104..111], [152..159]],
        [[16..23], [64..71], [112..119], [160..167]],
        [[0..7], [48..55], [96..103], [144..151]]]"
  unfolding scenario_schedules by (simp add: upto_rec1)

text \<open>
  Claim C8, as amended. With the four employees of \<open>main\<close>, a horizon of 7 days and the
  backend unavailable: employee 0 has the hours of day \<open>[0,8)\<close>, employee 1 \<open>[8,16)\<close>,
  employee 2 \<open>[16,24)\<close> and employee 3 \<open>[0,8)\<close>; each works on the days 0, 2, 4 and 6 only;
  the schedule of employee 0 has 32 entries; every run is one day's block of length 8; and
  \<open>add_breaks\<close> records for each run its element at offset 4, which is the period
  \<open>day * 24 + 4\<close> for employees 0 and 3, \<open>day * 24 + 12\<close> for employee 1 and
  \<open>day * 24 + 20\<close> for employee 2.
\<close>

theorem fallback_scenario:
  "generate_schedule backend_unavailable 7 main_simulator = Inr scenario_scheduled
   \<and> length (employees scenario_scheduled) = 4
   \<and> map (\<lambda>emp. remdups (map (\<lambda>p. p mod 24) (schedule emp))) (employees scenario_scheduled)
       = [[0..7], [8..15], [16..23], [0..7]]
   \<and> map (\<lambda>emp. remdups (map (\<lambda>p. p div 24) (schedule emp))) (employees scenario_scheduled)
       = [[0, 2, 4, 6], [0, 2, 4, 6], [0, 2, 4, 6], [0, 2, 4, 6]]
   \<and> length (schedule (employees scenario_scheduled ! 0)) = 32
   \<and> map (\<lambda>emp. map length (WS_get_shifts (schedule emp))) (employees scenario_scheduled)
       = [[8, 8, 8, 8], [8, 8, 8, 8], [8, 8, 8, 8], [8, 8, 8, 8]]
   \<and> map breaks_taken (employees (add_breaks scenario_scheduled))
       = map (\<lambda>emp. map (\<lambda>run. run ! 4) (WS_get_shifts (schedule emp)))
           (employees scenario_scheduled)
   \<and> map breaks_taken (employees (add_breaks scenario_scheduled))
       = [map (\<lambda>day. day * 24 + 4) [0, 2, 4, 6], map (\<lambda>day. day * 24 + 12) [0, 2, 4, 6],
          map (\<lambda>day. day * 24 + 20) [0, 2, 4, 6], map (\<lambda>day. day * 24 + 4) [0, 2, 4, 6]]"
proof -
  have len: "length (employees scenario_scheduled) = 4"
    using arg_cong [OF scenario_schedules, of length] by simp
  have "map (\<lambda>emp. remdups (map (\<lambda>p. p mod 24) (schedule emp))) (employees scenario_scheduled)
      = map (\<lambda>xs. remdups (map (\<lambda>p. p mod 24) xs)) (map schedule (employees scenario_scheduled))"
    by (rule map_schedule_comp)
  also have "\<dots> = [[0..7], [8..15], [16..23], [0..7]]"
    unfolding scenario_schedules by (simp add: upto_rec1)
  finally have hours: "map (\<lambda>emp. remdups (map (\<lambda>p. p mod 24) (schedule emp)))
      (employees scenario_scheduled) = [[0..7], [8..15], [16..23], [0..7]]" .
  have "map (\<lambda>emp. remdups (map (\<lambda>p. p div 24) (schedule emp))) (employees scenario_scheduled)
      = map (\<lambda>xs. remdups (map (\<lambda>p. p div 24) xs)) (map schedule (employees scenario_scheduled))"
    by (rule map_schedule_comp)
  also have "\<dots> = [[0, 2, 4, 6], [0, 2, 4, 6], [0, 2, 4, 6], [0, 2, 4, 6]]"
    unfolding scenario_schedules by (simp add: upto_rec1)
  finally have days: "map (\<lambda>emp. remdups (map (\<lambda>p. p div 24) (schedule emp)))
      (employees scenario_scheduled) = [[0, 2, 4, 6], [0, 2, 4, 6], [0, 2, 4, 6], [0, 2, 4, 6]]" .
  have "schedule (employees scenario_scheduled ! 0)
      = map schedule (employees scenario_scheduled) ! 0"
    using len by simp
  then have l32: "length (schedule (employees scenario_scheduled ! 0)) = 32"
    unfolding scenario_schedules by (simp add: upto_rec1)
  have runs: "map (\<lambda>emp. map length (WS_get_shifts (schedule emp))) (employees scenario_scheduled)
       = [[8, 8, 8, 8], [8, 8, 8, 8], [8, 8, 8, 8], [8, 8, 8, 8]]"
    using arg_cong [OF scenario_runs, of "map (map length)"]
    by (simp add: comp_def upto_rec1)
  have off: "map (\<lambda>emp. map (\<lambda>run. run ! 4) (WS_get_shifts (schedule emp)))
           (employees scenario_scheduled)
       = [[4, 52, 100, 148], [12, 60, 108, 156], [20, 68, 116, 164], [4, 52, 100, 148]]"
    using arg_cong [OF scenario_runs, of "map (map (\<lambda>run. run ! 4))"]
    by (simp add: comp_def upto_rec1)
  show ?thesis
    using scenario_generate len hours days l32 runs
    by (simp add: scenario_breaks off)
qed

text \<open>
  Claim C8 as stated fails in its last part: the breaks of employee 1, whose runs start
  at hour 8 of the day, are the periods 12, 60, 108 and 156, and the break of day 0 is
  not the period \<open>0 * 24 + 4\<close>.
\<close>

theorem fallback_scenario_break_period_counterexample:
  "generate_schedule backend_unavailable 7 main_simulator = Inr scenario_scheduled
   \<and> WS_get_shifts (schedule (employees scenario_scheduled ! 1))
       = [[8..15], [56..63], [104..111], [152..159]]
   \<and> breaks_taken (employees (add_breaks scenario_scheduled) ! 1) = [12, 60, 108, 156]
   \<and> breaks_taken (employees (add_breaks scenario_scheduled) ! 1) ! 0 \<noteq> 0 * 24 + 4"
proof -
  have len: "length (employees scenario_scheduled) = 4"
    using arg_cong [OF scenario_schedules, of length] by simp
  then have "WS_get_shifts (schedule (employees scenario_scheduled ! 1))
      = map WS_get_shifts (map schedule (employees scenario_scheduled)) ! 1"
    by simp
  then have runs: "WS_get_shifts (schedule (employees scenario_scheduled ! 1))
       = [[8..15], [56..63], [104..111], [152..159]]"
    unfolding scenario_runs by simp
  have "breaks_taken (employees (add_breaks scenario_scheduled) ! 1)
      = map breaks_taken (employees (add_breaks scenario_scheduled)) ! 1"
    using len by (simp add: add_breaks_length)
  then have "breaks_taken (employees (add_breaks scenario_scheduled) ! 1) = [12, 60, 108, 156]"
    unfolding scenario_breaks by simp
  then show ?thesis
    using scenario_generate runs by simp
qed


section \<open>Break assignment as a function of the schedule\<close>

text \<open>
  Claim C10. \<open>add_breaks\<close> resets the stored breaks first, so the resulting
  \<open>breaks_taken\<close> of every employee depends on the schedules alone and not on the breaks
  stored before; a second call of \<open>add_breaks\<close> changes nothing; and \<open>breaks_taken\<close> has
  no duplicates for every employee that satisfies the invariant of the data model, a
  strictly increasing schedule (a schedule without repeated periods is enough). Every
  schedule that \<open>generate_schedule\<close> writes is of that kind, so after \<open>generate_schedule\<close>
  and \<open>add_breaks\<close> no employee has a duplicate break, whatever the backend does.
\<close>

theorem add_breaks_function_of_schedule:
  "(map schedule (employees sim1) = map schedule (employees sim2) \<longrightarrow>
      map breaks_taken (employees (add_breaks sim1)) = map breaks_taken (employees (add_breaks sim2)))
   \<and> add_breaks (add_breaks sim) = add_breaks sim
   \<and> list_all (\<lambda>e. distinct (schedule e) \<longrightarrow> distinct (breaks_taken e))
        (employees (add_breaks sim))
   \<and> list_all (\<lambda>e. sorted_wrt (<) (schedule e) \<longrightarrow> distinct (breaks_taken e))
        (employees (add_breaks sim))
   \<and> (\<exists>sim'. generate_schedule b h sim = Inr sim'
        \<and> list_all (\<lambda>e. distinct (breaks_taken e)) (employees (add_breaks sim')))"
proof -
  let ?f = "\<lambda>xs. concat (map break_of_run (get_shifts xs))"
  have "map breaks_taken (employees (add_breaks s)) = map ?f (map schedule (employees s))" for s
    by (simp add: add_breaks_eq comp_def)
  then have "map breaks_taken (employees (add_breaks sim1)) = map ?f (map schedule (employees sim1))"
    and "map breaks_taken (employees (add_breaks sim2)) = map ?f (map schedule (employees sim2))"
    by blast+
  then have one: "map schedule (employees sim1) = map schedule (employees sim2) \<longrightarrow>
      map breaks_taken (employees (add_breaks sim1)) = map breaks_taken (employees (add_breaks sim2))"
    by (simp del: map_map)
  have two: "add_breaks (add_breaks sim) = add_breaks sim"
    by (simp add: add_breaks_eq comp_def)
  have dist: "distinct xs \<Longrightarrow> distinct (?f xs)" for xs
    using distinct_breaks [of "get_shifts xs"] by (simp add: get_shifts_concat)
  then have three: "list_all (\<lambda>e. distinct (schedule e) \<longrightarrow> distinct (breaks_taken e))
        (employees (add_breaks s))" for s
    by (simp add: add_breaks_eq list_all_iff)
  obtain sim' where sim': "generate_schedule b h sim = Inr sim'"
    by (simp add: generate_schedule_eq)
  have "\<exists>sim''. generate_schedule b h sim = Inr sim''
      \<and> list_all (\<lambda>emp. sorted_wrt (<) (schedule emp)
                 \<and> list_all (\<lambda>p. 0 \<le> p \<and> p < h * 24) (schedule emp)) (employees sim'')"
  proof -
    let ?F = "\<lambda>i. if backend_path b (length (employees sim)) h
        then optimal_schedule b i h else fallback_schedule i h"
    have "sorted_wrt (<) (?F i)" for i
      using sorted_optimal_schedule sorted_fallback_schedule by simp
    moreover have "list_all (\<lambda>p. 0 \<le> p \<and> p < h * 24) (?F i)" for i
      using optimal_schedule_range [of _ b i h] fallback_schedule_range [of _ i h]
      by (simp add: list_all_iff)
    ultimately show ?thesis
      by (simp add: generate_schedule_eq list_all_iff set_schedules_def)
  qed
  with sim' have "list_all (\<lambda>emp. sorted_wrt (<) (schedule emp)) (employees sim')"
    by (auto simp: list_all_iff)
  then have "list_all (\<lambda>emp. distinct (schedule emp)) (employees sim')"
    using strict_sorted_iff by (auto simp: list_all_iff)
  then have "list_all (\<lambda>e. distinct (breaks_taken e)) (employees (add_breaks sim'))"
    using dist by (simp add: add_breaks_eq list_all_iff)
  with sim' have four: "\<exists>sim'. generate_schedule b h sim = Inr sim'
        \<and> list_all (\<lambda>e. distinct (breaks_taken e)) (employees (add_breaks sim'))"
    by blast
  have "list_all (\<lambda>e. sorted_wrt (<) (schedule e) \<longrightarrow> distinct (breaks_taken e))
        (employees (add_breaks sim))"
    using three [of sim] strict_sorted_iff by (auto simp: list_all_iff)
  with one two three [of sim] four show ?thesis by blast
qed

theorem add_breaks_function_of_schedule_witness:
  "map breaks_taken (employees (add_breaks
      \<lparr>employees = [(Employee 0 [])\<lparr>breaks_taken := [99], schedule := [0, 1, 2, 3, 4, 5, 6, 7]\<rparr>]\<rparr>))
     = [[4]]
   \<and> map breaks_taken (employees (add_breaks
      \<lparr>employees = [(Employee 1 [])\<lparr>schedule := [0, 1, 2, 3, 4, 5, 6, 7]\<rparr>]\<rparr>)) = [[4]]
   \<and> sorted_wrt (<) [0, 1, 2, 3, 4, 5, 6, 7 :: int]
   \<and> distinct [0, 1, 2, 3, 4, 5, 6, 7 :: int]"
  using add_breaks_function_of_schedule
    [of "\<lparr>employees = [(Employee 0 [])\<lparr>breaks_taken := [99], schedule := [0, 1, 2, 3, 4, 5, 6, 7]\<rparr>]\<rparr>"
        "\<lparr>employees = [(Employee 1 [])\<lparr>schedule := [0, 1, 2, 3, 4, 5, 6, 7]\<rparr>]\<rparr>"
        "\<lparr>employees = [(Employee 1 [])\<lparr>schedule := [0, 1, 2, 3, 4, 5, 6, 7]\<rparr>]\<rparr>"
        backend_unavailable 1]
  by (simp add: add_breaks_def py_getitem_def Employee_def)

end
